theory Spec2Isabelle
  imports Main "HOL-Library.Multiset" "HOL-Library.Sublist" "HOL-Library.Word"
begin

section \<open>The notes application of \<^verbatim>\<open>src/notes_frontend/src/main.jsx\<close>\<close>

text \<open>
  The component \<^verbatim>\<open>App\<close> keeps five pieces of React state and mirrors one of them, the
  note collection, into the \<^verbatim>\<open>"notes"\<close> key of \<^verbatim>\<open>localStorage\<close>. The handlers that
  change the collection are modelled as functions from the state they close over to the
  state after the updates they queue; a handler that throws returns the exception as a
  value.

  A string is the list of its UTF-16 code units, timestamps (\<^verbatim>\<open>Date.now()\<close>, epoch
  milliseconds) are integers, \<^verbatim>\<open>null\<close> and \<^verbatim>\<open>undefined\<close> are \<^const>\<open>None\<close>. The values of
  \<^verbatim>\<open>Date.now()\<close> and \<^verbatim>\<open>crypto.randomUUID()\<close> are arguments of the handlers that read
  them; the two functions of the platform's \<^verbatim>\<open>JSON\<close> object and the lowercase mapping of
  the Unicode Character Database are parameters.
\<close>

subsection \<open>Data\<close>

type_synonym code_unit = "16 word"

type_synonym js_string = "code_unit list"

text \<open>A string literal of the source; all of them are written in Basic Latin.\<close>

definition lit :: "string \<Rightarrow> js_string" where
  "lit cs = map of_char cs"

text \<open>Line 6: \<^verbatim>\<open>{ id: string, title: string, content: string, created: ms, updated: ms }\<close>.\<close>

record Note =
  id_note :: js_string
  title :: js_string
  content :: js_string
  created :: int
  updated :: int

text \<open>Line 15: the draft \<^verbatim>\<open>{ title, content }\<close> of the edit form.\<close>

record edit_buffer =
  title_buf :: js_string
  content_buf :: js_string

text \<open>
  Lines 7 to 15: the state of \<^verbatim>\<open>App\<close>, and with it the one storage slot the
  component reads and writes (\<^verbatim>\<open>localStorage.getItem("notes")\<close>, \<^const>\<open>None\<close> when the
  key is absent).
\<close>

record app =
  "notes" :: "Note list"
  searchQuery :: js_string
  selectedId :: "js_string option"
  isEditing :: bool
  editBuffer :: edit_buffer
  localStorage :: "js_string option"

datatype js_error = TypeError | SyntaxError

subsection \<open>The platform's string and array functions\<close>

text \<open>
  \<^verbatim>\<open>String.prototype.toLowerCase\<close> replaces every character of the string by its
  lowercase mapping in the Unicode Character Database (\<^verbatim>\<open>UnicodeData.txt\<close> and the
  locale-insensitive part of \<^verbatim>\<open>SpecialCasing.txt\<close>). The mapping of a character may be
  several characters (U+0130 becomes U+0069 U+0307) and may depend on the characters
  around it (U+03A3 becomes U+03C2 at the end of a word and U+03C3 elsewhere), so the
  result need not have the length of the string. The table is the parameter
  \<open>lower\<close>: \<open>lower s i\<close> is what stands in the result for the code unit at index \<open>i\<close> of
  \<open>s\<close>.
\<close>

definition toLowerCase :: "(js_string \<Rightarrow> nat \<Rightarrow> js_string) \<Rightarrow> js_string \<Rightarrow> js_string" where
  "toLowerCase lower s = concat (map (lower s) [0..<length s])"

text \<open>\<^verbatim>\<open>String.prototype.includes\<close>: the needle occurs at some position of the
  receiver.\<close>

fun includes_str :: "js_string \<Rightarrow> js_string \<Rightarrow> bool" where
  "includes_str [] needle = (needle = [])"
| "includes_str (c # cs) needle = (prefix needle (c # cs) \<or> includes_str cs needle)"

text \<open>
  \<^verbatim>\<open>String.prototype.trim\<close> removes white space and line terminators from both ends:
  TAB, LF, VT, FF, CR, SP, NBSP, U+1680, U+2000 to U+200A, LS, PS, U+202F, U+205F,
  U+3000 and the byte order mark U+FEFF.
\<close>

definition isWhiteSpace :: "code_unit \<Rightarrow> bool" where
  "isWhiteSpace c =
     (c \<in> {0x9, 0xA, 0xB, 0xC, 0xD, 0x20, 0xA0, 0x1680, 0x2028, 0x2029, 0x202F, 0x205F,
            0x3000, 0xFEFF}
      \<or> (0x2000 \<le> c \<and> c \<le> 0x200A))"

definition trim :: "js_string \<Rightarrow> js_string" where
  "trim s = rev (dropWhile isWhiteSpace (rev (dropWhile isWhiteSpace s)))"

text \<open>\<^verbatim>\<open>Array.prototype.findIndex\<close>: the first index whose element satisfies the
  predicate, \<open>-1\<close> when there is none.\<close>

fun findIndex :: "('a \<Rightarrow> bool) \<Rightarrow> 'a list \<Rightarrow> int" where
  "findIndex P [] = - 1"
| "findIndex P (x # xs) =
     (if P x then 0 else (let i = findIndex P xs in if i = - 1 then - 1 else i + 1))"

text \<open>
  \<^verbatim>\<open>Array.prototype.sort\<close> with a comparator: the sort is stable (ECMAScript 2019), and
  \<open>a\<close> stays before \<open>b\<close> when the comparator gives a number that is not positive. It is
  modelled by insertion from the right, which is stable; \<open>xs\<close> is a fresh array (the
  result of \<^verbatim>\<open>filter\<close>), so the in-place update is not visible.
\<close>

fun insert_cmp :: "('a \<Rightarrow> 'a \<Rightarrow> int) \<Rightarrow> 'a \<Rightarrow> 'a list \<Rightarrow> 'a list" where
  "insert_cmp cmp a [] = [a]"
| "insert_cmp cmp a (b # bs) =
     (if cmp a b \<le> 0 then a # b # bs else b # insert_cmp cmp a bs)"

fun sort_cmp :: "('a \<Rightarrow> 'a \<Rightarrow> int) \<Rightarrow> 'a list \<Rightarrow> 'a list" where
  "sort_cmp cmp [] = []"
| "sort_cmp cmp (a # as) = insert_cmp cmp a (sort_cmp cmp as)"

subsection \<open>Loading and persisting\<close>

text \<open>
  Lines 7 to 11, the initialiser of \<^verbatim>\<open>notes\<close>:
  \<^verbatim>\<open>stored ? JSON.parse(stored) : []\<close>. An absent key and the empty string are falsy;
  on any other content the result, or the exception, of \<^verbatim>\<open>JSON.parse\<close> is the result
  of the initialiser: there is no handler around it.
\<close>

definition initial_notes ::
  "(js_string \<Rightarrow> js_error + Note list) \<Rightarrow> js_string option \<Rightarrow> js_error + Note list" where
  "initial_notes JSON_parse stored =
     (case stored of
        None \<Rightarrow> Inr []
      | Some str \<Rightarrow> if str \<noteq> [] then JSON_parse str else Inr [])"

text \<open>Lines 18 to 20, the effect that depends on \<^verbatim>\<open>[notes]\<close>:
  \<^verbatim>\<open>localStorage.setItem("notes", JSON.stringify(notes))\<close>.\<close>

definition persist :: "(Note list \<Rightarrow> js_string) \<Rightarrow> app \<Rightarrow> app" where
  "persist JSON_stringify s = s\<lparr>localStorage := Some (JSON_stringify (notes s))\<rparr>"

text \<open>The first render: the initial values of lines 7 to 15, then the effect.\<close>

definition mount ::
  "(js_string \<Rightarrow> js_error + Note list) \<Rightarrow> (Note list \<Rightarrow> js_string) \<Rightarrow> js_string option
     \<Rightarrow> js_error + app" where
  "mount JSON_parse JSON_stringify stored =
     (case initial_notes JSON_parse stored of
        Inl e \<Rightarrow> Inl e
      | Inr ns \<Rightarrow>
          Inr (persist JSON_stringify
            \<lparr>notes = ns, searchQuery = [], selectedId = None, isEditing = False,
             editBuffer = \<lparr>title_buf = [], content_buf = []\<rparr>, localStorage = stored\<rparr>))"

subsection \<open>The derived values of a render\<close>

text \<open>Lines 23 to 29: the list of the sidebar.\<close>

definition filteredNotes :: "(js_string \<Rightarrow> nat \<Rightarrow> js_string) \<Rightarrow> app \<Rightarrow> Note list" where
  "filteredNotes lower s =
     sort_cmp (\<lambda>a b. updated b - updated a)
       (filter
          (\<lambda>n. includes_str (toLowerCase lower (title n)) (toLowerCase lower (searchQuery s)) \<or>
                includes_str (toLowerCase lower (content n)) (toLowerCase lower (searchQuery s)))
          (notes s))"

subsection \<open>The handlers\<close>

text \<open>Lines 34 to 47.\<close>

definition handleCreateNote :: "int \<Rightarrow> js_string \<Rightarrow> app \<Rightarrow> js_error + app" where
  "handleCreateNote now uuid s =
     (let newNote = \<lparr>id_note = uuid, title = lit ''Untitled Note'', content = [],
                      created = now, updated = now\<rparr>
      in Inr (s\<lparr>notes := newNote # notes s,
                selectedId := Some (id_note newNote),
                isEditing := True,
                editBuffer := \<lparr>title_buf = lit ''Untitled Note'', content_buf = []\<rparr>\<rparr>))"

text \<open>Lines 58 to 72. A string is truthy when it is not empty.\<close>

definition handleSaveNote :: "int \<Rightarrow> app \<Rightarrow> js_error + app" where
  "handleSaveNote now s =
     Inr (s\<lparr>notes :=
              map (\<lambda>n. if Some (id_note n) = selectedId s
                       then n\<lparr>title := (if trim (title_buf (editBuffer s)) \<noteq> []
                                         then title_buf (editBuffer s)
                                         else lit ''Untitled Note''),
                              content := content_buf (editBuffer s),
                              updated := now\<rparr>
                       else n)
                (notes s),
            isEditing := False\<rparr>)"

text \<open>Lines 75 to 86. Reading \<^verbatim>\<open>newNotes[k].id\<close> past the end of the array would throw
  a \<^verbatim>\<open>TypeError\<close>.\<close>

definition handleDeleteNote :: "js_string \<Rightarrow> app \<Rightarrow> js_error + app" where
  "handleDeleteNote i s =
     (let idx = findIndex (\<lambda>n. id_note n = i) (notes s);
          newNotes = filter (\<lambda>n. id_note n \<noteq> i) (notes s)
      in if idx \<noteq> - 1 \<and> length newNotes > 0
         then (let k = nat (max 0 (idx - 1))
               in if k < length newNotes
                  then Inr (s\<lparr>notes := newNotes,
                              selectedId := Some (id_note (newNotes ! k)),
                              isEditing := False\<rparr>)
                  else Inl TypeError)
         else Inr (s\<lparr>notes := newNotes, selectedId := None, isEditing := False\<rparr>))"

subsection \<open>One mutation after another\<close>

text \<open>
  The three handlers that call \<^verbatim>\<open>setNotes\<close>, with the values they read from the
  platform. Each passes a fresh array to \<^verbatim>\<open>setNotes\<close> (a spread, a \<^verbatim>\<open>map\<close>, a
  \<^verbatim>\<open>filter\<close>), so the render that follows the handler sees a changed dependency and
  runs the effect of lines 18 to 20.
\<close>

datatype mutation = Create int js_string | Save int | Delete js_string

definition dispatch :: "(Note list \<Rightarrow> js_string) \<Rightarrow> mutation \<Rightarrow> app \<Rightarrow> js_error + app" where
  "dispatch JSON_stringify m s =
     (case (case m of
              Create now uuid \<Rightarrow> handleCreateNote now uuid s
            | Save now \<Rightarrow> handleSaveNote now s
            | Delete i \<Rightarrow> handleDeleteNote i s) of
        Inl e \<Rightarrow> Inl e
      | Inr s' \<Rightarrow> Inr (persist JSON_stringify s'))"

fun run :: "(Note list \<Rightarrow> js_string) \<Rightarrow> mutation list \<Rightarrow> app \<Rightarrow> js_error + app" where
  "run JSON_stringify [] s = Inr s"
| "run JSON_stringify (m # ms) s =
     (case dispatch JSON_stringify m s of
        Inl e \<Rightarrow> Inl e
      | Inr s' \<Rightarrow> run JSON_stringify ms s')"

subsection \<open>Example states\<close>

definition noteA :: Note where
  "noteA = \<lparr>id_note = lit ''a1'', title = lit ''A'', content = lit ''x'',
             created = 1000, updated = 1000\<rparr>"

definition noteB :: Note where
  "noteB = \<lparr>id_note = lit ''b1'', title = lit ''B'', content = lit ''y'',
             created = 2000, updated = 2000\<rparr>"

text \<open>A note of the collection \<open>ns\<close>, or a stale id, is selected and shown.\<close>

definition viewing :: "Note list \<Rightarrow> js_string \<Rightarrow> app" where
  "viewing ns i =
     \<lparr>notes = ns, searchQuery = [], selectedId = Some i, isEditing = False,
      editBuffer = \<lparr>title_buf = [], content_buf = []\<rparr>, localStorage = None\<rparr>"

text \<open>The edit form is open with the draft \<open>t\<close>, \<open>c\<close>.\<close>

definition editing :: "Note list \<Rightarrow> js_string \<Rightarrow> js_string \<Rightarrow> js_string \<Rightarrow> app" where
  "editing ns i t c =
     \<lparr>notes = ns, searchQuery = [], selectedId = Some i, isEditing = True,
      editBuffer = \<lparr>title_buf = t, content_buf = c\<rparr>, localStorage = None\<rparr>"

text \<open>
  An excerpt of the Unicode lowercase table, for the examples: the letters A to Z and
  the Greek capital letters U+0391 to U+03A9 move up by 32, every other code unit is
  kept. The capital sigma U+03A3 becomes the final sigma U+03C2 when a cased letter
  stands before it and none after it, and U+03C3 otherwise. On strings of Basic Latin
  and Greek letters this is what \<^verbatim>\<open>toLowerCase\<close> does.
\<close>

definition is_cased :: "code_unit \<Rightarrow> bool" where
  "is_cased c =
     ((0x41 \<le> c \<and> c \<le> 0x5A) \<or> (0x61 \<le> c \<and> c \<le> 0x7A) \<or>
      (0x391 \<le> c \<and> c \<le> 0x3A9 \<and> c \<noteq> 0x3A2) \<or> (0x3B1 \<le> c \<and> c \<le> 0x3C9))"

definition latin_greek_lower :: "js_string \<Rightarrow> nat \<Rightarrow> js_string" where
  "latin_greek_lower s i =
     (let c = s ! i
      in if c = 0x3A3
         then (if 0 < i \<and> is_cased (s ! (i - 1)) \<and> \<not> (i + 1 < length s \<and> is_cased (s ! (i + 1)))
               then [0x3C2] else [0x3C3])
         else if (0x41 \<le> c \<and> c \<le> 0x5A) \<or> (0x391 \<le> c \<and> c \<le> 0x3A9 \<and> c \<noteq> 0x3A2)
         then [c + 0x20]
         else [c])"


definition searching :: "Note list \<Rightarrow> js_string \<Rightarrow> app" where
  "searching ns q =
     \<lparr>notes = ns, searchQuery = q, selectedId = None, isEditing = False,
      editBuffer = \<lparr>title_buf = [], content_buf = []\<rparr>, localStorage = None\<rparr>"

section \<open>Facts about the array functions\<close>

lemma findIndex_absent: "\<forall>x\<in>set xs. \<not> P x \<Longrightarrow> findIndex P xs = - 1"
  by (induction xs) auto

lemma findIndex_first:
  "\<forall>y\<in>set pre. \<not> P y \<Longrightarrow> P x \<Longrightarrow> findIndex P (pre @ x # post) = int (length pre)"
  by (induction pre) (auto simp: Let_def)

lemma first_position_split:
  assumes "p < length xs" "P (xs ! p)" "\<forall>j<p. \<not> P (xs ! j)"
  shows "xs = take p xs @ (xs ! p) # drop (Suc p) xs \<and> (\<forall>y\<in>set (take p xs). \<not> P y)"
  using assms by (auto simp: id_take_nth_drop in_set_conv_nth)

lemma findIndex_position:
  assumes "p < length xs" "P (xs ! p)" "\<forall>j<p. \<not> P (xs ! j)"
  shows "findIndex P xs = int p"
proof -
  from first_position_split [OF assms]
  have split: "xs = take p xs @ (xs ! p) # drop (Suc p) xs"
    and before: "\<forall>y\<in>set (take p xs). \<not> P y" by auto
  have "findIndex P (take p xs @ (xs ! p) # drop (Suc p) xs) = int (length (take p xs))"
    using before assms(2) by (rule findIndex_first)
  with split assms(1) show ?thesis by simp
qed

lemma filter_keeps_before:
  assumes "p < length xs" "P (xs ! p)" "\<forall>j<p. \<not> P (xs ! j)"
  shows "filter (\<lambda>x. \<not> P x) xs = take p xs @ filter (\<lambda>x. \<not> P x) (drop (Suc p) xs)"
proof -
  from first_position_split [OF assms]
  have split: "xs = take p xs @ (xs ! p) # drop (Suc p) xs"
    and before: "\<forall>y\<in>set (take p xs). \<not> P y" by auto
  have "filter (\<lambda>x. \<not> P x) (take p xs @ (xs ! p) # drop (Suc p) xs)
      = take p xs @ filter (\<lambda>x. \<not> P x) (drop (Suc p) xs)"
    using before assms(2) by simp
  with split show ?thesis by simp
qed

lemma filter_prefix_length:
  assumes "p < length xs" "P (xs ! p)" "\<forall>j<p. \<not> P (xs ! j)"
  shows "p \<le> length (filter (\<lambda>x. \<not> P x) xs)"
    and "\<And>q. q < p \<Longrightarrow> filter (\<lambda>x. \<not> P x) xs ! q = xs ! q"
proof -
  have eq: "filter (\<lambda>x. \<not> P x) xs = take p xs @ filter (\<lambda>x. \<not> P x) (drop (Suc p) xs)"
    using assms by (rule filter_keeps_before)
  have "length (take p xs) = p" using assms(1) by simp
  then show "p \<le> length (filter (\<lambda>x. \<not> P x) xs)"
    by (subst eq) simp
  fix q assume "q < p"
  then show "filter (\<lambda>x. \<not> P x) xs ! q = xs ! q"
    using assms(1) by (subst eq) (simp add: nth_append)
qed

lemma find_map_update:
  assumes "find (\<lambda>n. id_note n = i) ns = Some n"
    and "\<And>m. id_note (g m) = id_note m"
  shows "find (\<lambda>n. id_note n = i) (map (\<lambda>m. if id_note m = i then g m else m) ns) = Some (g n)"
  using assms by (induction ns) (auto split: if_splits)


lemma includes_str_empty: "includes_str hay []"
  by (cases hay) auto


lemma toLowerCase_empty: "toLowerCase lower [] = []"
  by (simp add: toLowerCase_def)

lemma mset_insert_cmp: "mset (insert_cmp cmp a bs) = add_mset a (mset bs)"
  by (induction bs) auto

lemma mset_sort_cmp: "mset (sort_cmp cmp xs) = mset xs"
  by (induction xs) (auto simp: mset_insert_cmp)

lemma set_insert_cmp: "set (insert_cmp cmp a bs) = insert a (set bs)"
  by (induction bs) auto

lemma sorted_insert_cmp:
  assumes "sorted_wrt (\<lambda>a b. updated b \<le> updated a) bs"
  shows "sorted_wrt (\<lambda>a b. updated b \<le> updated a)
           (insert_cmp (\<lambda>a b. updated b - updated a) a bs)"
  using assms
proof (induction bs)
  case Nil
  show ?case by simp
next
  case (Cons b bs)
  show ?case
  proof (cases "updated b - updated a \<le> 0")
    case True
    then have "\<forall>x\<in>set bs. updated x \<le> updated a"
      using Cons.prems by auto
    with True Cons.prems show ?thesis by simp
  next
    case False
    with Cons show ?thesis by (simp add: set_insert_cmp)
  qed
qed

lemma sorted_sort_cmp:
  "sorted_wrt (\<lambda>a b. updated b \<le> updated a) (sort_cmp (\<lambda>a b. updated b - updated a) xs)"
  by (induction xs) (auto simp: sorted_insert_cmp)

lemma filter_insert_cmp:
  "filter (\<lambda>n. updated n = k) (insert_cmp (\<lambda>a b. updated b - updated a) a bs)
     = filter (\<lambda>n. updated n = k) (a # bs)"
  by (induction bs) auto

lemma filter_sort_cmp:
  "filter (\<lambda>n. updated n = k) (sort_cmp (\<lambda>a b. updated b - updated a) xs)
     = filter (\<lambda>n. updated n = k) xs"
  by (induction xs) (auto simp: filter_insert_cmp)

lemma filteredNotes_empty_query:
  "filteredNotes lower (s\<lparr>searchQuery := []\<rparr>)
     = sort_cmp (\<lambda>a b. updated b - updated a) (notes s)"
  by (simp add: filteredNotes_def toLowerCase_empty includes_str_empty)

section \<open>Creating a note\<close>

text \<open>
  C8. \<^const>\<open>handleCreateNote\<close> always completes; the new collection is the new note
  followed by the old collection; looking the new id up in it (\<^verbatim>\<open>notes.find\<close>, as
  lines 31 and 53 do) gives the new note, whose \<open>created\<close> and \<open>updated\<close> are both the
  current time, whose title is the placeholder \<^verbatim>\<open>Untitled Note\<close> and whose content is
  empty.
\<close>

theorem create_then_find:
  "\<exists>s' n. handleCreateNote now uuid s = Inr s' \<and>
      notes s' = n # notes s \<and>
      find (\<lambda>m. id_note m = uuid) (notes s') = Some n \<and>
      id_note n = uuid \<and> created n = updated n \<and> created n = now \<and>
      title n = lit ''Untitled Note'' \<and> content n = []"
  by (simp add: handleCreateNote_def)

section \<open>Starting up\<close>

text \<open>
  C2. The claim is that unparsable content of the storage slot gives the empty
  collection. The initialiser of lines 7 to 11 has no handler around
  \<^verbatim>\<open>JSON.parse\<close>: whenever the slot holds a non-empty string on which
  \<^verbatim>\<open>JSON.parse\<close> throws a \<^verbatim>\<open>SyntaxError\<close>, the initialiser throws it, and so does the
  first render; no state and no empty collection is produced.
\<close>

theorem malformed_storage_throws:
  assumes "str \<noteq> []" and "JSON_parse str = Inl SyntaxError"
  shows "initial_notes JSON_parse (Some str) = Inl SyntaxError \<and>
         mount JSON_parse JSON_stringify (Some str) = Inl SyntaxError"
  using assms by (simp add: initial_notes_def mount_def)

text \<open>A parser that accepts the text of the empty array and nothing else, on the slot
  content \<^verbatim>\<open>{bad\<close>.\<close>

theorem malformed_storage_throws_witness:
  "initial_notes (\<lambda>str. if str = lit ''[]'' then Inr [] else Inl SyntaxError)
       (Some (lit ''{bad''))
     = Inl SyntaxError \<and>
   mount (\<lambda>str. if str = lit ''[]'' then Inr [] else Inl SyntaxError) (\<lambda>ns. lit ''[]'')
       (Some (lit ''{bad''))
     = Inl SyntaxError"
  using malformed_storage_throws
    [of "lit ''{bad''" "\<lambda>str. if str = lit ''[]'' then Inr [] else Inl SyntaxError"
        "\<lambda>ns. lit ''[]''"]
  by (simp add: lit_def)

section \<open>Saving\<close>

text \<open>
  C7, as amended. When the selected id is the id of a note of the collection,
  \<^const>\<open>handleSaveNote\<close> completes, and looking the id up afterwards gives a note whose
  title is the submitted title, or the placeholder \<^verbatim>\<open>Untitled Note\<close> when the submitted
  title is empty after \<^verbatim>\<open>trim\<close>; whose content is the submitted content as it is; whose
  \<open>updated\<close> is the current time; and whose id and \<open>created\<close> are unchanged. So
  \<open>updated\<close> is greater than \<open>created\<close> exactly when the current time is later than the
  time of creation.
\<close>

theorem save_present_updates:
  assumes "selectedId s = Some i"
    and "find (\<lambda>n. id_note n = i) (notes s) = Some n"
  shows "\<exists>s' n'. handleSaveNote now s = Inr s' \<and>
           find (\<lambda>n. id_note n = i) (notes s') = Some n' \<and>
           title n' = (if trim (title_buf (editBuffer s)) = [] then lit ''Untitled Note''
                       else title_buf (editBuffer s)) \<and>
           content n' = content_buf (editBuffer s) \<and>
           updated n' = now \<and>
           id_note n' = i \<and> created n' = created n \<and>
           (created n' < updated n') = (created n < now)"
proof -
  let ?g = "\<lambda>m. m\<lparr>title := (if trim (title_buf (editBuffer s)) \<noteq> []
                             then title_buf (editBuffer s) else lit ''Untitled Note''),
                  content := content_buf (editBuffer s), updated := now\<rparr>"
  have found: "find (\<lambda>n. id_note n = i)
                 (map (\<lambda>m. if id_note m = i then ?g m else m) (notes s)) = Some (?g n)"
    using assms(2) by (rule find_map_update) simp
  have "id_note n = i" using assms(2) by (auto simp: find_Some_iff)
  with found show ?thesis
    by (simp add: handleSaveNote_def assms(1))
qed

text \<open>The scenario of the specification, \<^verbatim>\<open>update(id, "", "body")\<close>, at time 3000 on a
  note created at time 1000.\<close>

theorem save_present_updates_witness:
  "\<exists>s' n'. handleSaveNote 3000 (editing [noteA, noteB] (lit ''a1'') [] (lit ''body'')) = Inr s' \<and>
      find (\<lambda>n. id_note n = lit ''a1'') (notes s') = Some n' \<and>
      title n' = lit ''Untitled Note'' \<and> content n' = lit ''body'' \<and> updated n' = 3000 \<and>
      id_note n' = lit ''a1'' \<and> created n' = 1000 \<and> created n' < updated n'"
  using save_present_updates
    [of "editing [noteA, noteB] (lit ''a1'') [] (lit ''body'')" "lit ''a1''" noteA 3000]
  by (simp add: editing_def noteA_def noteB_def trim_def lit_def)

text \<open>
  C7 as stated fails in its last part: \<^verbatim>\<open>update(id, "", "body")\<close> in the millisecond
  of the note's creation (both at time 1000) gives \<open>updated = created\<close>, not
  \<open>updated > created\<close>.
\<close>

theorem save_in_the_creation_millisecond:
  "handleSaveNote 1000 (editing [noteA] (lit ''a1'') [] (lit ''body''))
     = Inr \<lparr>notes = [\<lparr>id_note = lit ''a1'', title = lit ''Untitled Note'',
                       content = lit ''body'', created = 1000, updated = 1000\<rparr>],
            searchQuery = [], selectedId = Some (lit ''a1''), isEditing = False,
            editBuffer = \<lparr>title_buf = [], content_buf = lit ''body''\<rparr>,
            localStorage = None\<rparr>"
  by (simp add: handleSaveNote_def editing_def noteA_def trim_def lit_def)

section \<open>Deleting\<close>

text \<open>
  C9. Let \<open>p\<close> be the position of the note with id \<open>i\<close> in the unfiltered collection
  (the first one, should several notes share the id). Then \<^const>\<open>handleDeleteNote\<close>
  completes, removes the notes with that id, leaves edit mode, and selects: nothing
  when no note remains; the new head when \<open>p = 0\<close>; otherwise the note that stood at
  position \<open>p - 1\<close>, immediately before the deleted one. In particular this holds
  when \<open>i\<close> is the selected id, which is how line 236 calls the handler.
\<close>

theorem delete_present_reselects:
  assumes "p < length (notes s)"
    and "id_note (notes s ! p) = i"
    and "\<forall>j<p. id_note (notes s ! j) \<noteq> i"
  shows "\<exists>s'. handleDeleteNote i s = Inr s' \<and>
           notes s' = filter (\<lambda>n. id_note n \<noteq> i) (notes s) \<and>
           isEditing s' = False \<and>
           selectedId s' =
             (if notes s' = [] then None
              else if p = 0 then Some (id_note (notes s' ! 0))
              else Some (id_note (notes s ! (p - 1))))"
proof -
  let ?P = "\<lambda>n. id_note n = i"
  let ?new = "filter (\<lambda>n. id_note n \<noteq> i) (notes s)"
  have idx: "findIndex ?P (notes s) = int p"
    using assms by (intro findIndex_position) auto
  show ?thesis
  proof (cases "?new = []")
    case True
    then show ?thesis by (simp add: handleDeleteNote_def idx Let_def)
  next
    case False
    show ?thesis
    proof (cases p)
      case 0
      with False show ?thesis by (simp add: handleDeleteNote_def idx Let_def)
    next
      case (Suc q)
      have "p \<le> length (filter (\<lambda>n. \<not> ?P n) (notes s))"
        using assms by (intro filter_prefix_length(1)) auto
      then have len: "q < length ?new" using Suc by simp
      have "filter (\<lambda>n. \<not> ?P n) (notes s) ! q = notes s ! q"
        using assms Suc by (intro filter_prefix_length(2)) auto
      then have nth: "?new ! q = notes s ! q" by simp
      from False Suc len nth show ?thesis
        by (simp add: handleDeleteNote_def idx Let_def)
    qed
  qed
qed

text \<open>The second of two notes is selected and deleted: the first one is selected.\<close>

theorem delete_present_reselects_witness:
  "\<exists>s'. handleDeleteNote (lit ''b1'') (viewing [noteA, noteB] (lit ''b1'')) = Inr s' \<and>
      notes s' = [noteA] \<and> isEditing s' = False \<and> selectedId s' = Some (lit ''a1'')"
  using delete_present_reselects [of 1 "viewing [noteA, noteB] (lit ''b1'')" "lit ''b1''"]
  by (auto simp: viewing_def noteA_def noteB_def lit_def)

text \<open>
  C10. When no note of the collection has the id \<open>i\<close>, \<^const>\<open>handleDeleteNote\<close>
  completes with the collection, the query, the draft and the storage slot as they
  were, with no selection and outside edit mode, whatever was selected before.
\<close>

theorem delete_missing_clears_selection:
  assumes "\<forall>n\<in>set (notes s). id_note n \<noteq> i"
  shows "handleDeleteNote i s = Inr (s\<lparr>selectedId := None, isEditing := False\<rparr>)"
proof -
  have "findIndex (\<lambda>n. id_note n = i) (notes s) = - 1"
    using assms by (simp add: findIndex_absent)
  moreover have "filter (\<lambda>n. id_note n \<noteq> i) (notes s) = notes s"
    using assms by (simp add: filter_id_conv)
  ultimately show ?thesis by (simp add: handleDeleteNote_def)
qed

text \<open>Two notes remain and the first is selected when the stale id \<^verbatim>\<open>zz\<close> is
  deleted.\<close>

theorem delete_missing_clears_selection_witness:
  "handleDeleteNote (lit ''zz'') (viewing [noteA, noteB] (lit ''a1''))
     = Inr ((viewing [noteA, noteB] (lit ''a1''))\<lparr>selectedId := None, isEditing := False\<rparr>)
   \<and> notes (viewing [noteA, noteB] (lit ''a1'')) = [noteA, noteB]
   \<and> selectedId (viewing [noteA, noteB] (lit ''a1'')) = Some (id_note noteA)"
  using delete_missing_clears_selection [of "viewing [noteA, noteB] (lit ''a1'')" "lit ''zz''"]
  by (simp add: viewing_def noteA_def noteB_def lit_def)

section \<open>Persistence\<close>

lemma handleDeleteNote_completes:
  "\<exists>s'. handleDeleteNote i s = Inr s' \<and> notes s' = filter (\<lambda>n. id_note n \<noteq> i) (notes s)"
proof (cases "\<exists>n\<in>set (notes s). id_note n = i")
  case False
  then have "findIndex (\<lambda>n. id_note n = i) (notes s) = - 1"
    by (simp add: findIndex_absent)
  then show ?thesis by (simp add: handleDeleteNote_def)
next
  case True
  define p where "p = (LEAST k. k < length (notes s) \<and> id_note (notes s ! k) = i)"
  from True obtain k where k: "k < length (notes s) \<and> id_note (notes s ! k) = i"
    by (auto simp: in_set_conv_nth)
  then have p: "p < length (notes s) \<and> id_note (notes s ! p) = i"
    unfolding p_def by (rule LeastI)
  have first: "\<forall>j<p. id_note (notes s ! j) \<noteq> i"
  proof (intro allI impI)
    fix j assume "j < p"
    then have "\<not> (j < length (notes s) \<and> id_note (notes s ! j) = i)"
      unfolding p_def by (rule not_less_Least)
    moreover have "j < length (notes s)" using \<open>j < p\<close> p by simp
    ultimately show "id_note (notes s ! j) \<noteq> i" by simp
  qed
  have idx: "findIndex (\<lambda>n. id_note n = i) (notes s) = int p"
    using p first by (intro findIndex_position) auto
  have "p \<le> length (filter (\<lambda>n. \<not> id_note n = i) (notes s))"
    using p first by (intro filter_prefix_length(1)) auto
  then have "nat (max 0 (int p - 1)) < length (filter (\<lambda>n. id_note n \<noteq> i) (notes s))
      \<or> filter (\<lambda>n. id_note n \<noteq> i) (notes s) = []"
    by (cases p) auto
  then show ?thesis
    by (auto simp: handleDeleteNote_def idx Let_def)
qed

lemma dispatch_persists:
  "\<exists>s'. dispatch f m s = Inr s' \<and> localStorage s' = Some (f (notes s'))"
proof (cases m)
  case (Create now uuid)
  then show ?thesis by (simp add: dispatch_def handleCreateNote_def persist_def)
next
  case (Save now)
  then show ?thesis by (simp add: dispatch_def handleSaveNote_def persist_def)
next
  case (Delete i)
  obtain s1 where "handleDeleteNote i s = Inr s1"
    using handleDeleteNote_completes by blast
  with Delete show ?thesis by (simp add: dispatch_def persist_def)
qed

lemma run_completes: "\<exists>s'. run f ms s = Inr s'"
proof (induction ms arbitrary: s)
  case Nil
  show ?case by simp
next
  case (Cons m ms)
  obtain s1 where "dispatch f m s = Inr s1" using dispatch_persists by blast
  with Cons.IH [of s1] show ?case by simp
qed

lemma run_append:
  "run f (ms @ ms') s = (case run f ms s of Inl e \<Rightarrow> Inl e | Inr s' \<Rightarrow> run f ms' s')"
  by (induction ms arbitrary: s) (auto split: sum.splits)

text \<open>
  C4. From any state, every non-empty sequence of create, save and delete operations
  runs to completion, and after its last operation the storage slot holds the
  serialisation of the collection in memory. Since the sequence is arbitrary, this
  holds after each operation of a sequence.
\<close>

theorem storage_follows_memory:
  "\<exists>s'. run JSON_stringify (ms @ [m]) s = Inr s' \<and>
         localStorage s' = Some (JSON_stringify (notes s'))"
proof -
  obtain s1 where s1: "run JSON_stringify ms s = Inr s1"
    using run_completes by blast
  obtain s2 where s2: "dispatch JSON_stringify m s1 = Inr s2"
    and stored: "localStorage s2 = Some (JSON_stringify (notes s2))"
    using dispatch_persists by blast
  have "run JSON_stringify (ms @ [m]) s = Inr s2"
    by (simp add: run_append s1 s2)
  with stored show ?thesis by simp
qed

section \<open>The list of the sidebar\<close>

text \<open>
  C5. With the empty query the list holds the notes of the collection, each as often
  as the collection does; it is ordered by \<open>updated\<close>, largest first; and for every
  timestamp \<open>k\<close> the notes with \<open>updated = k\<close> stand in the list in the order in which
  they stand in the collection. This holds whatever the lowercase mapping is.
\<close>

theorem list_all_sorted_stable:
  "mset (filteredNotes lower (s\<lparr>searchQuery := []\<rparr>)) = mset (notes s) \<and>
   sorted_wrt (\<lambda>a b. updated b \<le> updated a) (filteredNotes lower (s\<lparr>searchQuery := []\<rparr>)) \<and>
   (\<forall>k. filter (\<lambda>n. updated n = k) (filteredNotes lower (s\<lparr>searchQuery := []\<rparr>))
         = filter (\<lambda>n. updated n = k) (notes s))"
  by (simp add: filteredNotes_empty_query mset_sort_cmp sorted_sort_cmp filter_sort_cmp)

text \<open>
  The scenario of the specification: \<open>B\<close> was updated after \<open>A\<close>, so the list is
  \<open>[B, A]\<close> although the collection is \<open>[A, B]\<close>; once \<open>A\<close> is saved at a later time
  the list is \<open>[A, B]\<close>. The query \<^verbatim>\<open>Y\<close> finds the content \<^verbatim>\<open>y\<close> of \<open>B\<close> only.
\<close>

lemma filteredNotes_examples:
  "filteredNotes latin_greek_lower (searching [noteA, noteB] []) = [noteB, noteA] \<and>
   filteredNotes latin_greek_lower (searching [noteA\<lparr>updated := 3000\<rparr>, noteB] [])
     = [noteA\<lparr>updated := 3000\<rparr>, noteB] \<and>
   filteredNotes latin_greek_lower (searching [noteA, noteB] (lit ''Y'')) = [noteB]"
  by code_simp



end
